theory Spec2Isabelle
  imports Main
begin

section \<open>Strings and JavaScript values\<close>

text \<open>
  Strings are lists of 8-bit characters.  \<open>startsWith\<close> and \<open>endsWith\<close> are the
  methods of \<open>String.prototype\<close>; \<open>split_on c\<close> is \<open>s.split(c)\<close> for a
  one-character separator (it never returns the empty array).
\<close>

definition startsWith :: "string \<Rightarrow> string \<Rightarrow> bool" where
  "startsWith s pre = (take (length pre) s = pre)"

definition endsWith :: "string \<Rightarrow> string \<Rightarrow> bool" where
  "endsWith s suf = (length suf \<le> length s \<and> drop (length s - length suf) s = suf)"





text \<open>
  An HMR timestamp is a number the server takes from \<open>Date.now()\<close>: a non-negative
  integer below \<open>2^53\<close>, which a template literal renders as its decimal digits.
\<close>

typedef safe_integer = "{n :: nat. n < 2 ^ 53}"
  by (rule exI[of _ 0]) simp


text \<open>
  The values an untyped (\<open>any\<close>) argument can take, as far as \<open>typeof\<close>,
  \<open>Array.isArray\<close> and truthiness tell them apart.  Functions and objects are
  identified by a reference; an array of dependencies holds strings.
\<close>

datatype jsval =
    JUndefined
  | JNull
  | JBool bool
  | JNum int
  | JNaN
  | JStr string
  | JFun nat
  | JArr "string list"
  | JObj nat

fun truthy :: "jsval \<Rightarrow> bool" where
  "truthy JUndefined = False"
| "truthy JNull = False"
| "truthy (JBool b) = b"
| "truthy (JNum n) = (n \<noteq> 0)"
| "truthy JNaN = False"
| "truthy (JStr s) = (s \<noteq> [])"
| "truthy (JFun f) = True"
| "truthy (JArr xs) = True"
| "truthy (JObj r) = True"

fun is_function :: "jsval \<Rightarrow> bool" where
  "is_function (JFun f) = True"
| "is_function v = False"

fun is_string :: "jsval \<Rightarrow> bool" where
  "is_string (JStr s) = True"
| "is_string v = False"

fun is_array :: "jsval \<Rightarrow> bool" where
  "is_array (JArr xs) = True"
| "is_array v = False"

datatype js_error = Error string | TypeError | URIError

section \<open>Plugin ordering (node/config.ts, node/plugins/index.ts)\<close>

text \<open>
  A plugin carries an optional \<open>enforce\<close> band and, per hook name, an optional hook.
  A hook is either a plain function or an object \<open>{ order?, handler }\<close>; the
  handler is kept as an opaque identifier.  The declaration of the \<open>Plugin\<close> type
  is not part of the sources at hand; the fields are the ones the two sorting functions read.
\<close>

datatype enforce = EnforcePre | EnforcePost

datatype hook_order = OrderPre | OrderPost

datatype hook = HookFn nat | HookObj "hook_order option" nat

record plugin =
  plugin_name :: string
  plugin_enforce :: "enforce option"
  plugin_hooks :: "string \<Rightarrow> hook option"

text \<open>
  \<open>sortUserPlugins\<close>: the raw list may hold plugins and arrays of plugins (or be
  undefined); \<open>plugins.flat()\<close> flattens one level, then every plugin is pushed on
  one of three arrays.  The result is the triple \<open>[pre, normal, post]\<close>.
\<close>

fun flat :: "('a + 'a list) list \<Rightarrow> 'a list" where
  "flat [] = []"
| "flat (Inl p # rest) = p # flat rest"
| "flat (Inr ps # rest) = ps @ flat rest"

fun sortUserPlugins_loop ::
  "plugin list \<Rightarrow> plugin list \<times> plugin list \<times> plugin list
    \<Rightarrow> plugin list \<times> plugin list \<times> plugin list" where
  "sortUserPlugins_loop [] acc = acc"
| "sortUserPlugins_loop (p # ps) (prePlugins, normalPlugins, postPlugins) =
     (if plugin_enforce p = Some EnforcePre
        then sortUserPlugins_loop ps (prePlugins @ [p], normalPlugins, postPlugins)
      else if plugin_enforce p = Some EnforcePost
        then sortUserPlugins_loop ps (prePlugins, normalPlugins, postPlugins @ [p])
      else sortUserPlugins_loop ps (prePlugins, normalPlugins @ [p], postPlugins))"

definition sortUserPlugins ::
  "(plugin + plugin list) list option \<Rightarrow> plugin list \<times> plugin list \<times> plugin list" where
  "sortUserPlugins plugins =
     (case plugins of
        None \<Rightarrow> ([], [], [])
      | Some raw \<Rightarrow> sortUserPlugins_loop (flat raw) ([], [], []))"

text \<open>
  \<open>getSortedPluginsByHook\<close>: a plugin without the hook is skipped; an object hook
  with \<open>order: 'pre'\<close> or \<open>order: 'post'\<close> goes to that array, everything else to
  \<open>normal\<close>; the result is \<open>[...pre, ...normal, ...post]\<close>.
\<close>

fun getSortedPluginsByHook_loop ::
  "string \<Rightarrow> plugin list \<Rightarrow> plugin list \<times> plugin list \<times> plugin list
    \<Rightarrow> plugin list \<times> plugin list \<times> plugin list" where
  "getSortedPluginsByHook_loop hookName [] acc = acc"
| "getSortedPluginsByHook_loop hookName (p # ps) (pre, normal, post) =
     (case plugin_hooks p hookName of
        None \<Rightarrow> getSortedPluginsByHook_loop hookName ps (pre, normal, post)
      | Some (HookObj (Some OrderPre) h) \<Rightarrow>
          getSortedPluginsByHook_loop hookName ps (pre @ [p], normal, post)
      | Some (HookObj (Some OrderPost) h) \<Rightarrow>
          getSortedPluginsByHook_loop hookName ps (pre, normal, post @ [p])
      | Some other \<Rightarrow> getSortedPluginsByHook_loop hookName ps (pre, normal @ [p], post))"

definition getSortedPluginsByHook :: "string \<Rightarrow> plugin list \<Rightarrow> plugin list" where
  "getSortedPluginsByHook hookName plugins =
     (case getSortedPluginsByHook_loop hookName plugins ([], [], []) of
        (pre, normal, post) \<Rightarrow> pre @ normal @ post)"

text \<open>The band a plugin falls in, for the user-plugin sort and for one hook.\<close>

datatype band = BandPre | BandNormal | BandPost

definition enforce_band :: "plugin \<Rightarrow> band" where
  "enforce_band p =
     (case plugin_enforce p of
        Some EnforcePre \<Rightarrow> BandPre
      | Some EnforcePost \<Rightarrow> BandPost
      | None \<Rightarrow> BandNormal)"

definition hook_band :: "string \<Rightarrow> plugin \<Rightarrow> band option" where
  "hook_band hookName p =
     (case plugin_hooks p hookName of
        None \<Rightarrow> None
      | Some (HookObj (Some OrderPre) h) \<Rightarrow> Some BandPre
      | Some (HookObj (Some OrderPost) h) \<Rightarrow> Some BandPost
      | Some other \<Rightarrow> Some BandNormal)"

section \<open>Client: connecting (client.ts, lines 38 to 116)\<close>

text \<open>
  \<open>setupWebSocket\<close> creates a socket that remembers whether it has opened and an
  optional callback for a close that comes before any open.  The two closures the client
  passes are the fallback (connect to \<open>__HMR_DIRECT_TARGET__\<close>) and, for the
  fallback socket itself, the report of the failed setup.  \<open>hmrPort\<close> is
  \<open>__HMR_PORT__\<close> (a number or \<open>null\<close>); it is set when it is truthy.
  The close listener returns at once on a clean close; on an unclean close it runs the
  callback when the socket never opened and a callback was given, and otherwise polls the
  server and reloads the page once a ping succeeds.  The \<open>WebSocket\<close> constructor is
  taken to return a socket (when it throws, the client only logs the error).
\<close>

datatype close_callback = ConnectDirect | ReportFailure

record websocket =
  ws_protocol :: string
  ws_hostAndPath :: string
  onCloseWithoutOpen :: "close_callback option"
  isOpened :: bool

record hmr_env =
  hmrPort :: "nat option"
  socketProtocol :: string
  socketHost :: string
  directSocketHost :: string

datatype client_action =
    OpenSocket websocket
  | ConsoleError
  | ConsoleLogConnectionLost
  | PollThenReload string string

definition port_set :: "nat option \<Rightarrow> bool" where
  "port_set port = (case port of None \<Rightarrow> False | Some n \<Rightarrow> n \<noteq> 0)"

definition setupWebSocket :: "string \<Rightarrow> string \<Rightarrow> close_callback option \<Rightarrow> websocket" where
  "setupWebSocket protocol hostAndPath cb =
     \<lparr> ws_protocol = protocol, ws_hostAndPath = hostAndPath,
       onCloseWithoutOpen = cb, isOpened = False \<rparr>"

definition primary_socket :: "hmr_env \<Rightarrow> websocket" where
  "primary_socket env =
     setupWebSocket (socketProtocol env) (socketHost env)
       (if \<not> port_set (hmrPort env) then Some ConnectDirect else None)"

definition on_open :: "websocket \<Rightarrow> websocket" where
  "on_open ws = ws\<lparr> isOpened := True \<rparr>"

definition run_close_callback :: "hmr_env \<Rightarrow> close_callback \<Rightarrow> client_action list" where
  "run_close_callback env cb =
     (case cb of
        ConnectDirect \<Rightarrow>
          [OpenSocket (setupWebSocket (socketProtocol env) (directSocketHost env) (Some ReportFailure))]
      | ReportFailure \<Rightarrow> [ConsoleError])"

definition on_close :: "hmr_env \<Rightarrow> websocket \<Rightarrow> bool \<Rightarrow> client_action list" where
  "on_close env ws wasClean =
     (if wasClean then []
      else (case (isOpened ws, onCloseWithoutOpen ws) of
              (False, Some cb) \<Rightarrow> run_close_callback env cb
            | other \<Rightarrow> [ConsoleLogConnectionLost, PollThenReload (ws_protocol ws) (ws_hostAndPath ws)]))"

definition attempts_direct :: "hmr_env \<Rightarrow> client_action list \<Rightarrow> bool" where
  "attempts_direct env acts =
     list_ex (\<lambda>a. case a of OpenSocket ws \<Rightarrow> ws_hostAndPath ws = directSocketHost env | other \<Rightarrow> False) acts"

section \<open>Client: the full-reload message (client.ts, lines 216 to 234)\<close>

text \<open>
  The handler first notifies the listeners of \<open>vite:beforeFullReload\<close>.  Only a
  payload whose \<open>path\<close> is a non-empty string ending in \<open>.html\<close> is compared with
  the page the browser is on; \<open>decodedPathname\<close> is
  \<open>decodeURI(location.pathname)\<close>, which is \<open>None\<close> when \<open>decodeURI\<close> throws.
  \<open>base\<close> is \<open>__BASE__ || '/'\<close>.
\<close>

datatype effect = NotifyListeners string | LocationReload

definition handle_full_reload ::
  "string \<Rightarrow> string option \<Rightarrow> string option \<Rightarrow> js_error + effect list" where
  "handle_full_reload base decodedPathname payload_path =
     (case payload_path of
        None \<Rightarrow> Inr [NotifyListeners ''vite:beforeFullReload'', LocationReload]
      | Some p \<Rightarrow>
          if p \<noteq> [] \<and> endsWith p ''.html''
          then (case decodedPathname of
                  None \<Rightarrow> Inl URIError
                | Some pagePath \<Rightarrow>
                    (let payloadPath = base @ drop 1 p
                     in if pagePath = payloadPath \<or> p = ''/index.html''
                           \<or> (endsWith pagePath ''/'' \<and> pagePath @ ''index.html'' = payloadPath)
                        then Inr [NotifyListeners ''vite:beforeFullReload'', LocationReload]
                        else Inr [NotifyListeners ''vite:beforeFullReload'']))
          else Inr [NotifyListeners ''vite:beforeFullReload'', LocationReload])"

definition reloads :: "js_error + effect list \<Rightarrow> bool" where
  "reloads r = (case r of Inl e \<Rightarrow> False | Inr effs \<Rightarrow> LocationReload \<in> set effs)"

text \<open>
  The browser is on the page of the payload when its path is the payload's path under the
  base, or is the directory whose \<open>index.html\<close> the payload names.
\<close>

definition on_that_page :: "string \<Rightarrow> string \<Rightarrow> string \<Rightarrow> bool" where
  "on_that_page base pagePath p =
     (pagePath = base @ drop 1 p
      \<or> (endsWith pagePath ''/'' \<and> pagePath @ ''index.html'' = base @ drop 1 p))"

definition reload_ignored :: "string \<Rightarrow> string \<Rightarrow> string option \<Rightarrow> bool" where
  "reload_ignored base pagePath payload_path =
     (case payload_path of
        None \<Rightarrow> False
      | Some p \<Rightarrow>
          p \<noteq> [] \<and> endsWith p ''.html'' \<and> p \<noteq> ''/index.html''
          \<and> \<not> on_that_page base pagePath p)"

section \<open>Client: hot contexts (client.ts, lines 487 to 616)\<close>

text \<open>
  The module-level maps of the client.  A registered accept callback is one of the closures
  \<open>hot.accept\<close> builds: the self-accepting wrapper \<open>([mod]) => deps && deps(mod)\<close>,
  the single-dependency wrapper \<open>([mod]) => callback && callback(mod)\<close>, the callback
  itself (array form), or the default \<open>() => {}\<close>.  Dispose, prune and custom-event
  callbacks are functions, named by a reference.

  The objects held in \<open>dataMap\<close> and the listener maps held in
  \<open>ctxToListenersMap\<close> are mutable and shared by reference (a context keeps its own
  \<open>newListeners\<close> map), so both live in a store indexed by references;
  \<open>nextRef\<close> is the next unused reference.
\<close>

datatype hotfn =
    SelfAcceptFn jsval
  | DepAcceptFn jsval
  | UserFn jsval
  | NoopFn

record hot_callback =
  deps :: "string list"
  fn :: hotfn

record hot_module =
  mod_id :: string
  callbacks :: "hot_callback list"

type_synonym listeners_map = "string \<rightharpoonup> nat list"

record client_state =
  hotModulesMap :: "string \<rightharpoonup> hot_module"
  disposeMap :: "string \<rightharpoonup> nat"
  pruneMap :: "string \<rightharpoonup> nat"
  dataMap :: "string \<rightharpoonup> nat"
  customListenersMap :: listeners_map
  ctxToListenersMap :: "string \<rightharpoonup> nat"
  dataObjects :: "nat \<rightharpoonup> (string \<rightharpoonup> jsval)"
  listenerMaps :: "nat \<rightharpoonup> listeners_map"
  nextRef :: nat

record hot_context =
  ownerPath :: string
  newListeners :: nat

definition initial_client :: client_state where
  "initial_client =
     \<lparr> hotModulesMap = Map.empty, disposeMap = Map.empty, pruneMap = Map.empty,
       dataMap = Map.empty, customListenersMap = Map.empty, ctxToListenersMap = Map.empty,
       dataObjects = Map.empty, listenerMaps = Map.empty, nextRef = 0 \<rparr>"

text \<open>
  \<open>createHotContext\<close> in its three steps: \<open>dataMap.set(ownerPath, {})\<close> unless the
  key is there; \<open>mod.callbacks = []\<close> for a module already registered; and the removal
  from \<open>customListenersMap\<close> of every listener the previous context of
  \<open>ownerPath\<close> registered (the loop over the entries of \<open>staleListeners\<close> touches
  each event once, so its result is given event by event).  Then the fresh
  \<open>newListeners\<close> map is stored for \<open>ownerPath\<close>.  Neither \<open>disposeMap\<close> nor
  \<open>pruneMap\<close> is written.
\<close>

definition init_data :: "string \<Rightarrow> client_state \<Rightarrow> client_state" where
  "init_data p st =
     (if dataMap st p = None
      then st\<lparr> dataMap := (dataMap st)(p \<mapsto> nextRef st),
               dataObjects := (dataObjects st)(nextRef st \<mapsto> Map.empty),
               nextRef := Suc (nextRef st) \<rparr>
      else st)"

definition clear_callbacks :: "string \<Rightarrow> client_state \<Rightarrow> client_state" where
  "clear_callbacks p st =
     (case hotModulesMap st p of
        None \<Rightarrow> st
      | Some m \<Rightarrow> st\<lparr> hotModulesMap := (hotModulesMap st)(p \<mapsto> m\<lparr> callbacks := [] \<rparr>) \<rparr>)"

definition remove_stale :: "listeners_map \<Rightarrow> listeners_map \<Rightarrow> listeners_map" where
  "remove_stale staleListeners current =
     (\<lambda>event.
        case staleListeners event of
          None \<Rightarrow> current event
        | Some staleFns \<Rightarrow>
            (case current event of
               None \<Rightarrow> None
             | Some listeners \<Rightarrow> Some (filter (\<lambda>l. l \<notin> set staleFns) listeners)))"

definition clear_stale_listeners :: "string \<Rightarrow> client_state \<Rightarrow> client_state" where
  "clear_stale_listeners p st =
     (case ctxToListenersMap st p of
        None \<Rightarrow> st
      | Some r \<Rightarrow>
          (case listenerMaps st r of
             None \<Rightarrow> st
           | Some staleListeners \<Rightarrow>
               st\<lparr> customListenersMap := remove_stale staleListeners (customListenersMap st) \<rparr>))"


text \<open>The methods of the context object.\<close>

definition acceptDeps :: "string \<Rightarrow> string list \<Rightarrow> hotfn \<Rightarrow> client_state \<Rightarrow> client_state" where
  "acceptDeps p ds callback st =
     (let m = (case hotModulesMap st p of
                 None \<Rightarrow> \<lparr> mod_id = p, callbacks = [] \<rparr>
               | Some m \<Rightarrow> m)
      in st\<lparr> hotModulesMap :=
               (hotModulesMap st)(p \<mapsto> m\<lparr> callbacks := callbacks m @ [\<lparr> deps = ds, fn = callback \<rparr>] \<rparr>) \<rparr>)"

definition hot_accept :: "hot_context \<Rightarrow> jsval \<Rightarrow> jsval \<Rightarrow> client_state \<Rightarrow> js_error + client_state" where
  "hot_accept ctx d callback st =
     (if is_function d \<or> \<not> truthy d
        then Inr (acceptDeps (ownerPath ctx) [ownerPath ctx] (SelfAcceptFn d) st)
      else (case d of
              JStr s \<Rightarrow> Inr (acceptDeps (ownerPath ctx) [s] (DepAcceptFn callback) st)
            | JArr ds \<Rightarrow>
                Inr (acceptDeps (ownerPath ctx) ds
                       (if callback = JUndefined then NoopFn else UserFn callback) st)
            | other \<Rightarrow> Inl (Error ''invalid hot.accept() usage.'')))"










definition callbacks_of :: "client_state \<Rightarrow> string \<Rightarrow> hot_callback list" where
  "callbacks_of st p = (case hotModulesMap st p of None \<Rightarrow> [] | Some m \<Rightarrow> callbacks m)"


definition invalid_accept_usage :: "jsval \<Rightarrow> bool" where
  "invalid_accept_usage d = (truthy d \<and> \<not> is_function d \<and> \<not> is_string d \<and> \<not> is_array d)"

section \<open>Client: applying a js-update (client.ts, lines 299 to 318 and 412 to 478)\<close>

text \<open>
  \<open>explicitImportRequired\<close> is an optional boolean (absent counts as false).  What
  \<open>fetchUpdate\<close> does is recorded as a list of events: the call of the disposer with
  the data object of the accepted path, the dynamic import with its URL, the warning of a
  failed import, and the calls of accept callbacks with their argument arrays (console
  output is left out).  \<open>load\<close> stands for the dynamic \<open>import()\<close>: the module
  namespace it resolves to, or \<open>None\<close> when it rejects.  Functions written by the
  user (disposers, accept callbacks) are taken to return.
\<close>

datatype update_type = JsUpdate | CssUpdate

record update =
  utype :: update_type
  path :: string
  acceptedPath :: string
  timestamp :: safe_integer
  explicitImportRequired :: bool










section \<open>Client: injectQuery (client.ts, lines 621 to 634)\<close>

text \<open>
  In this section a string is read as the bytes of its UTF-8 encoding.
  \<open>strip_from c s\<close> is \<open>s.replace(/c.*$/, '')\<close>: the dot does not match a line
  terminator (LF, CR, U+2028, U+2029) and \<open>$\<close> is the end of the input, so the
  leftmost \<open>c\<close> with no line terminator after it starts the match.
\<close>

fun has_line_terminator :: "string \<Rightarrow> bool" where
  "has_line_terminator [] = False"
| "has_line_terminator (x # xs) =
     (x = CHR 0x0A \<or> x = CHR 0x0D
      \<or> (x = CHR 0xE2 \<and> (take 2 xs = [CHR 0x80, CHR 0xA8] \<or> take 2 xs = [CHR 0x80, CHR 0xA9]))
      \<or> has_line_terminator xs)"

fun strip_from :: "char \<Rightarrow> string \<Rightarrow> string" where
  "strip_from c [] = []"
| "strip_from c (x # xs) =
     (if x = c \<and> \<not> has_line_terminator xs then [] else x # strip_from c xs)"

text \<open>
  \<open>new URL(url, 'http://vitejs.dev')\<close> is the parser of the platform (the URL
  standard), here for the references \<open>injectQuery\<close> passes to it: those that start
  with \<open>.\<close> or \<open>/\<close>, resolved against an \<open>http\<close> base.  The parser drops
  leading and trailing C0 controls and spaces and every tab and newline.  The fragment is
  what follows the first \<open>#\<close>, the query what lies between the first \<open>?\<close> before
  it and that \<open>#\<close>; both are percent-encoded (the query with the special-query set, the
  fragment with the fragment set; \<open>%\<close> itself is left alone); \<open>search\<close> and
  \<open>hash\<close> are empty for an empty query or fragment.  A reference that starts with
  \<open>/\<close> and a second slash or backslash has an authority: after all leading
  slashes, up to the next slash, backslash, \<open>?\<close> or \<open>#\<close>.  The constructor throws
  when the part of the authority after its last \<open>@\<close> has an empty host, a host the
  host parser rejects, or a port that is not made of digits or exceeds 65535; nothing else
  makes it throw for such references.  The host parser (IDNA, IPv4 and IPv6 literals) is
  not modelled: \<open>valid_host\<close> says which host strings it accepts.
\<close>

definition code :: "char \<Rightarrow> nat" where
  "code c = of_char c"

definition c0_control_or_space :: "char \<Rightarrow> bool" where
  "c0_control_or_space c = (code c \<le> 0x20)"

definition tab_or_newline :: "char \<Rightarrow> bool" where
  "tab_or_newline c = (c = CHR 0x09 \<or> c = CHR 0x0A \<or> c = CHR 0x0D)"

definition clean :: "string \<Rightarrow> string" where
  "clean s =
     filter (\<lambda>c. \<not> tab_or_newline c)
       (rev (dropWhile c0_control_or_space (rev (dropWhile c0_control_or_space s))))"

definition hex_digit :: "nat \<Rightarrow> char" where
  "hex_digit d = ''0123456789ABCDEF'' ! d"

definition percent_byte :: "char \<Rightarrow> string" where
  "percent_byte c = [CHR ''%'', hex_digit (code c div 16), hex_digit (code c mod 16)]"

definition c0_control_set :: "char \<Rightarrow> bool" where
  "c0_control_set c = (code c \<le> 0x1F \<or> code c > 0x7E)"

definition special_query_set :: "char \<Rightarrow> bool" where
  "special_query_set c =
     (c0_control_set c \<or> c = CHR 0x20 \<or> c = CHR 0x22 \<or> c = CHR ''#'' \<or> c = CHR ''<''
      \<or> c = CHR ''>'' \<or> c = CHR 0x27)"

definition fragment_set :: "char \<Rightarrow> bool" where
  "fragment_set c =
     (c0_control_set c \<or> c = CHR 0x20 \<or> c = CHR 0x22 \<or> c = CHR ''<'' \<or> c = CHR ''>''
      \<or> c = CHR 0x60)"

definition percent_encode :: "(char \<Rightarrow> bool) \<Rightarrow> string \<Rightarrow> string" where
  "percent_encode in_set s = concat (map (\<lambda>c. if in_set c then percent_byte c else [c]) s)"

definition raw_query :: "string \<Rightarrow> string" where
  "raw_query s = drop 1 (dropWhile (\<lambda>c. c \<noteq> CHR ''?'') (takeWhile (\<lambda>c. c \<noteq> CHR ''#'') s))"

definition raw_fragment :: "string \<Rightarrow> string" where
  "raw_fragment s = drop 1 (dropWhile (\<lambda>c. c \<noteq> CHR ''#'') s)"

definition slash :: "char \<Rightarrow> bool" where
  "slash c = (c = CHR ''/'' \<or> c = CHR 0x5C)"

definition has_authority :: "string \<Rightarrow> bool" where
  "has_authority s = (case s of a # b # rest \<Rightarrow> a = CHR ''/'' \<and> slash b | _ \<Rightarrow> False)"

definition authority_of :: "string \<Rightarrow> string" where
  "authority_of s =
     takeWhile (\<lambda>c. \<not> slash c \<and> c \<noteq> CHR ''?'' \<and> c \<noteq> CHR ''#'') (dropWhile slash s)"

definition after_last_at :: "string \<Rightarrow> string" where
  "after_last_at a = rev (takeWhile (\<lambda>c. c \<noteq> CHR ''@'') (rev a))"

fun split_host_port :: "bool \<Rightarrow> string \<Rightarrow> string \<times> string option" where
  "split_host_port insideBrackets [] = ([], None)"
| "split_host_port insideBrackets (c # cs) =
     (if c = CHR '':'' \<and> \<not> insideBrackets then ([], Some cs)
      else (case split_host_port
                   (if c = CHR ''['' then True else if c = CHR '']'' then False else insideBrackets) cs of
              (host, port) \<Rightarrow> (c # host, port)))"

definition ascii_digit :: "char \<Rightarrow> bool" where
  "ascii_digit c = (0x30 \<le> code c \<and> code c \<le> 0x39)"

definition decimal_value :: "string \<Rightarrow> nat" where
  "decimal_value ds = foldl (\<lambda>n c. 10 * n + (code c - 0x30)) 0 ds"

definition port_ok :: "string \<Rightarrow> bool" where
  "port_ok p = (list_all ascii_digit p \<and> (p = [] \<or> decimal_value p \<le> 65535))"

definition authority_rejected :: "(string \<Rightarrow> bool) \<Rightarrow> string \<Rightarrow> bool" where
  "authority_rejected valid_host a =
     (case split_host_port False (after_last_at a) of
        (host, port) \<Rightarrow>
          host = [] \<or> \<not> valid_host host
          \<or> (case port of None \<Rightarrow> False | Some p \<Rightarrow> \<not> port_ok p))"

definition URL_rejects :: "(string \<Rightarrow> bool) \<Rightarrow> string \<Rightarrow> bool" where
  "URL_rejects valid_host url =
     (has_authority (clean url) \<and> authority_rejected valid_host (authority_of (clean url)))"

definition url_query :: "string \<Rightarrow> string" where
  "url_query url = percent_encode special_query_set (raw_query (clean url))"

definition url_fragment :: "string \<Rightarrow> string" where
  "url_fragment url = percent_encode fragment_set (raw_fragment (clean url))"

definition new_URL :: "(string \<Rightarrow> bool) \<Rightarrow> string \<Rightarrow> (string \<times> string) option" where
  "new_URL valid_host url =
     (if URL_rejects valid_host url then None
      else Some (if url_query url = [] then [] else CHR ''?'' # url_query url,
                 if url_fragment url = [] then [] else CHR ''#'' # url_fragment url))"

text \<open>
  \<open>injectQuery\<close> itself: the guard, the two regular expressions, the parser, and the
  template literal.
\<close>

definition injectQuery ::
  "(string \<Rightarrow> bool) \<Rightarrow> string \<Rightarrow> string \<Rightarrow> js_error + string" where
  "injectQuery valid_host url queryToInject =
     (if \<not> startsWith url ''.'' \<and> \<not> startsWith url ''/'' then Inr url
      else (let pathname = strip_from (CHR ''?'') (strip_from (CHR ''#'') url)
            in case new_URL valid_host url of
                 None \<Rightarrow> Inl TypeError
               | Some (search, hash) \<Rightarrow>
                   Inr (pathname @ ''?'' @ queryToInject
                        @ (if search \<noteq> [] then ''&'' @ drop 1 search else [])
                        @ hash)))"

text \<open>The part of a url before its first \<open>?\<close> or \<open>#\<close>.\<close>

definition url_path :: "string \<Rightarrow> string" where
  "url_path url = takeWhile (\<lambda>c. c \<noteq> CHR ''?'' \<and> c \<noteq> CHR ''#'') url"

section \<open>Server: the websocket server (node/server/ws.ts)\<close>

text \<open>
  Payloads of the wire protocol, with the fields the server code reads (the type tag, and
  the event and data of a custom payload).  A sent message is recorded as the payload that
  \<open>JSON.stringify\<close> was applied to.  Sockets are numbered in the order they are
  accepted; \<open>clients\<close> is \<open>wss.clients\<close>, \<open>outbox\<close> lists every
  \<open>socket.send\<close> in order with the socket it went to.
\<close>

datatype hmr_payload =
    PConnected
  | PUpdate "update list"
  | PFullReload "string option"
  | PPrune "string list"
  | PError string
  | PCustom string jsval
  | PPing

record ws_server =
  clients :: "nat list"
  readyState :: "nat \<Rightarrow> nat"
  bufferedError :: "hmr_payload option"
  outbox :: "(nat \<times> hmr_payload) list"
  socketCount :: nat

definition initial_server :: ws_server where
  "initial_server =
     \<lparr> clients = [], readyState = (\<lambda>s. 0), bufferedError = None, outbox = [], socketCount = 0 \<rparr>"

definition socket_send :: "nat \<Rightarrow> hmr_payload \<Rightarrow> ws_server \<Rightarrow> ws_server" where
  "socket_send s payload st = st\<lparr> outbox := outbox st @ [(s, payload)] \<rparr>"

text \<open>
  The \<open>connection\<close> listener: \<open>{ type: 'connected' }\<close> is sent, then a buffered
  error, if any, which is then dropped from the buffer.  The library adds the new socket
  (open, \<open>readyState\<close> 1) to \<open>wss.clients\<close> before it emits the event.
\<close>

definition on_connection :: "nat \<Rightarrow> ws_server \<Rightarrow> ws_server" where
  "on_connection s st =
     (let st1 = socket_send s PConnected st
      in case bufferedError st1 of
           None \<Rightarrow> st1
         | Some e \<Rightarrow> (socket_send s e st1)\<lparr> bufferedError := None \<rparr>)"

definition accept_connection :: "ws_server \<Rightarrow> nat \<times> ws_server" where
  "accept_connection st =
     (let s = socketCount st
      in (s, on_connection s
               (st\<lparr> clients := clients st @ [s],
                    readyState := (readyState st)(s := 1),
                    socketCount := Suc s \<rparr>)))"

text \<open>
  \<open>send\<close> takes a payload, or an event name and data (a custom payload).  An error
  payload with no client in \<open>wss.clients\<close> is buffered; anything else goes to every
  client whose \<open>readyState\<close> is 1.  The wrapper of \<open>getSocketClient\<close> sends to
  its own socket.
\<close>

datatype send_args = SendPayload hmr_payload | SendEvent string jsval

definition payload_of :: "send_args \<Rightarrow> hmr_payload" where
  "payload_of args =
     (case args of
        SendEvent event data \<Rightarrow> PCustom event data
      | SendPayload payload \<Rightarrow> payload)"

fun is_error_payload :: "hmr_payload \<Rightarrow> bool" where
  "is_error_payload (PError err) = True"
| "is_error_payload other = False"

definition ws_send :: "send_args \<Rightarrow> ws_server \<Rightarrow> ws_server" where
  "ws_send args st =
     (let payload = payload_of args
      in if is_error_payload payload \<and> clients st = []
         then st\<lparr> bufferedError := Some payload \<rparr>
         else st\<lparr> outbox := outbox st
                     @ map (\<lambda>client. (client, payload))
                         (filter (\<lambda>client. readyState st client = 1) (clients st)) \<rparr>)"

definition client_send :: "nat \<Rightarrow> send_args \<Rightarrow> ws_server \<Rightarrow> ws_server" where
  "client_send s args st = socket_send s (payload_of args) st"

definition socket_closing :: "nat \<Rightarrow> ws_server \<Rightarrow> ws_server" where
  "socket_closing s st = st\<lparr> readyState := (readyState st)(s := 2) \<rparr>"

definition socket_closed :: "nat \<Rightarrow> ws_server \<Rightarrow> ws_server" where
  "socket_closed s st =
     st\<lparr> clients := filter (\<lambda>c. c \<noteq> s) (clients st), readyState := (readyState st)(s := 3) \<rparr>"

text \<open>
  What can happen to the server: a connection is accepted, \<open>send\<close> is called, a
  client wrapper of an accepted socket sends, a socket starts closing or has closed.
\<close>

datatype server_event =
    EvConnection
  | EvSend send_args
  | EvClientSend nat send_args
  | EvClosing nat
  | EvClosed nat

fun server_step :: "server_event \<Rightarrow> ws_server \<Rightarrow> ws_server" where
  "server_step EvConnection st = snd (accept_connection st)"
| "server_step (EvSend args) st = ws_send args st"
| "server_step (EvClientSend s args) st = (if s < socketCount st then client_send s args st else st)"
| "server_step (EvClosing s) st = socket_closing s st"
| "server_step (EvClosed s) st = socket_closed s st"

fun server_run :: "server_event list \<Rightarrow> ws_server \<Rightarrow> ws_server" where
  "server_run [] st = st"
| "server_run (ev # evs) st = server_run evs (server_step ev st)"

definition received :: "nat \<Rightarrow> ws_server \<Rightarrow> hmr_payload list" where
  "received s st = map snd (filter (\<lambda>m. fst m = s) (outbox st))"

definition connected_first :: "hmr_payload list \<Rightarrow> bool" where
  "connected_first msgs = (case msgs of [] \<Rightarrow> True | m # rest \<Rightarrow> m = PConnected)"

text \<open>
  Every client and every socket that was sent anything has been accepted, and an accepted
  socket was sent \<open>connected\<close> first.
\<close>

definition server_ok :: "ws_server \<Rightarrow> bool" where
  "server_ok st =
     ((\<forall>c \<in> set (clients st). c < socketCount st)
      \<and> (\<forall>s. if s < socketCount st then (\<exists>rest. received s st = PConnected # rest)
               else received s st = []))"

text \<open>
  The error payloads that a sequence of events passes to \<open>send\<close>, in order, and the
  sequences in which no connection is accepted.
\<close>

fun error_sends :: "server_event list \<Rightarrow> hmr_payload list" where
  "error_sends [] = []"
| "error_sends (EvSend args # evs) =
     (if is_error_payload (payload_of args) then payload_of args # error_sends evs
      else error_sends evs)"
| "error_sends (ev # evs) = error_sends evs"

definition no_connection :: "server_event list \<Rightarrow> bool" where
  "no_connection evs = list_all (\<lambda>ev. ev \<noteq> EvConnection) evs"

section \<open>Example inputs\<close>

definition demo_plugins :: "plugin list" where
  "demo_plugins =
     [\<lparr> plugin_name = ''a'', plugin_enforce = Some EnforcePost,
        plugin_hooks = (\<lambda>h. if h = ''transform'' then Some (HookFn 1) else None) \<rparr>,
      \<lparr> plugin_name = ''b'', plugin_enforce = None,
        plugin_hooks = (\<lambda>h. if h = ''transform'' then Some (HookObj (Some OrderPre) 2) else None) \<rparr>,
      \<lparr> plugin_name = ''c'', plugin_enforce = Some EnforcePre,
        plugin_hooks = (\<lambda>h. None) \<rparr>,
      \<lparr> plugin_name = ''d'', plugin_enforce = None,
        plugin_hooks = (\<lambda>h. if h = ''transform'' then Some (HookObj None 4) else None) \<rparr>]"

definition demo_env :: hmr_env where
  "demo_env = \<lparr> hmrPort = Some 24678, socketProtocol = ''ws'',
                  socketHost = ''localhost:24678/'', directSocketHost = ''localhost:5173/'' \<rparr>"

definition demo_env_no_port :: hmr_env where
  "demo_env_no_port = \<lparr> hmrPort = None, socketProtocol = ''ws'',
                  socketHost = ''localhost:5173/'', directSocketHost = ''localhost:5173/'' \<rparr>"

definition demo_path :: string where
  "demo_path = ''/src/a.js''"













definition any_host :: "string \<Rightarrow> bool" where
  "any_host h = True"

section \<open>Properties of the plugin ordering\<close>

lemma sortUserPlugins_loop_filter:
  "sortUserPlugins_loop ps (a, b, c) =
     (a @ filter (\<lambda>p. enforce_band p = BandPre) ps,
      b @ filter (\<lambda>p. enforce_band p = BandNormal) ps,
      c @ filter (\<lambda>p. enforce_band p = BandPost) ps)"
proof (induction ps arbitrary: a b c)
  case Nil
  show ?case by simp
next
  case (Cons p ps)
  show ?case
  proof (cases "plugin_enforce p")
    case None
    then show ?thesis by (simp add: Cons.IH enforce_band_def)
  next
    case (Some e)
    then show ?thesis by (cases e) (simp_all add: Cons.IH enforce_band_def)
  qed
qed

lemma getSortedPluginsByHook_loop_filter:
  "getSortedPluginsByHook_loop h ps (a, b, c) =
     (a @ filter (\<lambda>p. hook_band h p = Some BandPre) ps,
      b @ filter (\<lambda>p. hook_band h p = Some BandNormal) ps,
      c @ filter (\<lambda>p. hook_band h p = Some BandPost) ps)"
proof (induction ps arbitrary: a b c)
  case Nil
  show ?case by simp
next
  case (Cons p ps)
  show ?case
    by (simp add: Cons.IH hook_band_def split: option.split hook.split hook_order.split)
qed

text \<open>
  C4.  For every plugin list and every hook name the plugins are consulted band by band:
  first those of the pre band, then the normal ones, then those of the post band, each band
  in the order of the input list.  The same holds for the three arrays
  \<open>sortUserPlugins\<close> returns for the \<open>enforce\<close> bands of the (flattened) user
  plugins.
\<close>

theorem plugin_order_stable_partition:
  "getSortedPluginsByHook hookName plugins =
       filter (\<lambda>p. hook_band hookName p = Some BandPre) plugins
     @ filter (\<lambda>p. hook_band hookName p = Some BandNormal) plugins
     @ filter (\<lambda>p. hook_band hookName p = Some BandPost) plugins
   \<and> sortUserPlugins (Some raw) =
       (filter (\<lambda>p. enforce_band p = BandPre) (flat raw),
        filter (\<lambda>p. enforce_band p = BandNormal) (flat raw),
        filter (\<lambda>p. enforce_band p = BandPost) (flat raw))"
  by (simp add: getSortedPluginsByHook_def sortUserPlugins_def
      getSortedPluginsByHook_loop_filter sortUserPlugins_loop_filter)

text \<open>On four plugins: \<open>b\<close> (pre hook) comes first, \<open>c\<close> has no such hook.\<close>

theorem plugin_order_stable_partition_witness:
  "map plugin_name (getSortedPluginsByHook ''transform'' demo_plugins) = [''b'', ''a'', ''d'']
   \<and> map plugin_name (fst (sortUserPlugins (Some [Inr demo_plugins]))) = [''c'']"
  using plugin_order_stable_partition[of "''transform''" demo_plugins "[Inr demo_plugins]"]
  by (simp add: demo_plugins_def hook_band_def enforce_band_def)

section \<open>Properties of the client's connection setup\<close>

text \<open>
  C8, as the code has it.  When the primary connection closes uncleanly without having
  opened, the client connects to the direct target only if no HMR port is configured;
  with a port configured it polls the server and reloads instead.  After a clean close
  nothing is done, and a connection that had opened is never replaced by the direct one.
\<close>

theorem fallback_only_without_port:
  "on_close env (primary_socket env) wasClean =
     (if wasClean then []
      else if port_set (hmrPort env)
        then [ConsoleLogConnectionLost, PollThenReload (socketProtocol env) (socketHost env)]
      else [OpenSocket (setupWebSocket (socketProtocol env) (directSocketHost env) (Some ReportFailure))])
   \<and> on_close env (on_open (primary_socket env)) False =
       [ConsoleLogConnectionLost, PollThenReload (socketProtocol env) (socketHost env)]"
  by (simp add: on_close_def on_open_def primary_socket_def setupWebSocket_def run_close_callback_def)

theorem fallback_only_without_port_witness:
  "attempts_direct demo_env_no_port (on_close demo_env_no_port (primary_socket demo_env_no_port) False)"
  using fallback_only_without_port[of demo_env_no_port False]
  by (simp add: demo_env_no_port_def port_set_def attempts_direct_def setupWebSocket_def)

text \<open>
  With \<open>__HMR_PORT__\<close> set to 24678 the primary socket never opened and closes
  uncleanly, and no connection to the direct target is attempted.
\<close>

theorem fallback_counterexample:
  "\<not> isOpened (primary_socket demo_env)
   \<and> \<not> attempts_direct demo_env (on_close demo_env (primary_socket demo_env) False)"
  by (simp add: demo_env_def on_close_def primary_socket_def setupWebSocket_def port_set_def
      attempts_direct_def)

section \<open>Properties of the full-reload handler\<close>

text \<open>
  C2, as the code has it.  With the location decodable, a full-reload payload is ignored
  exactly when its path is a non-empty string ending in \<open>.html\<close>, other than
  \<open>/index.html\<close>, and the browser is not on that page; in every other case the page
  is reloaded.  The listeners of \<open>vite:beforeFullReload\<close> are notified first.
\<close>

theorem full_reload_decision:
  "handle_full_reload base (Some pagePath) payload_path =
     Inr (NotifyListeners ''vite:beforeFullReload'' #
          (if reload_ignored base pagePath payload_path then [] else [LocationReload]))"
  by (cases payload_path)
    (auto simp add: handle_full_reload_def reload_ignored_def on_that_page_def Let_def)

theorem full_reload_decision_witness:
  "\<not> reloads (handle_full_reload ''/'' (Some ''/about.html'') (Some ''/nested/page.html''))
   \<and> reloads (handle_full_reload ''/'' (Some ''/nested/'') (Some ''/nested/index.html''))
   \<and> reloads (handle_full_reload ''/'' (Some ''/about.html'') None)"
  using full_reload_decision[of "''/''" "''/about.html''" "Some ''/nested/page.html''"]
    full_reload_decision[of "''/''" "''/nested/''" "Some ''/nested/index.html''"]
    full_reload_decision[of "''/''" "''/about.html''" None]
  by (simp add: reloads_def reload_ignored_def on_that_page_def endsWith_def)

text \<open>
  The payload carries a path and the browser is on a different page, yet the page is
  reloaded: for \<open>/index.html\<close>, and for a path that does not end in \<open>.html\<close>.
\<close>

theorem full_reload_counterexample:
  "\<not> on_that_page ''/'' ''/about.html'' ''/index.html''
   \<and> reloads (handle_full_reload ''/'' (Some ''/about.html'') (Some ''/index.html''))
   \<and> \<not> on_that_page ''/'' ''/about.html'' ''/src/main.ts''
   \<and> reloads (handle_full_reload ''/'' (Some ''/about.html'') (Some ''/src/main.ts''))"
  by (simp add: on_that_page_def reloads_def handle_full_reload_def endsWith_def)

section \<open>Properties of hot contexts\<close>

lemma init_data_fields [simp]:
  "hotModulesMap (init_data p st) = hotModulesMap st"
  "disposeMap (init_data p st) = disposeMap st"
  "pruneMap (init_data p st) = pruneMap st"
  "customListenersMap (init_data p st) = customListenersMap st"
  "ctxToListenersMap (init_data p st) = ctxToListenersMap st"
  "listenerMaps (init_data p st) = listenerMaps st"
  by (simp_all add: init_data_def)

lemma clear_callbacks_fields [simp]:
  "disposeMap (clear_callbacks p st) = disposeMap st"
  "pruneMap (clear_callbacks p st) = pruneMap st"
  "dataMap (clear_callbacks p st) = dataMap st"
  "dataObjects (clear_callbacks p st) = dataObjects st"
  "customListenersMap (clear_callbacks p st) = customListenersMap st"
  "ctxToListenersMap (clear_callbacks p st) = ctxToListenersMap st"
  "listenerMaps (clear_callbacks p st) = listenerMaps st"
  "nextRef (clear_callbacks p st) = nextRef st"
  by (simp_all add: clear_callbacks_def split: option.split)

lemma clear_stale_listeners_fields [simp]:
  "hotModulesMap (clear_stale_listeners p st) = hotModulesMap st"
  "disposeMap (clear_stale_listeners p st) = disposeMap st"
  "pruneMap (clear_stale_listeners p st) = pruneMap st"
  "dataMap (clear_stale_listeners p st) = dataMap st"
  "dataObjects (clear_stale_listeners p st) = dataObjects st"
  "ctxToListenersMap (clear_stale_listeners p st) = ctxToListenersMap st"
  "listenerMaps (clear_stale_listeners p st) = listenerMaps st"
  "nextRef (clear_stale_listeners p st) = nextRef st"
  by (simp_all add: clear_stale_listeners_def split: option.split)



















text \<open>
  C10.  \<open>hot.accept(deps, callback)\<close> throws, with the message
  \<open>invalid hot.accept() usage.\<close>, exactly when \<open>deps\<close> is truthy and is neither a
  function nor a string nor an array; in every other case it returns normally and has
  appended one accept callback to those of the module.
\<close>

theorem hot_accept_throws_iff:
  "(isl (hot_accept ctx d callback st) = invalid_accept_usage d)
   \<and> (invalid_accept_usage d
        \<longrightarrow> hot_accept ctx d callback st = Inl (Error ''invalid hot.accept() usage.''))
   \<and> (\<not> invalid_accept_usage d
        \<longrightarrow> (\<exists>st' c. hot_accept ctx d callback st = Inr st'
               \<and> callbacks_of st' (ownerPath ctx) = callbacks_of st (ownerPath ctx) @ [c]))"
proof (cases "is_function d \<or> \<not> truthy d")
  case True
  then have "\<not> invalid_accept_usage d"
    by (auto simp add: invalid_accept_usage_def)
  moreover have "hot_accept ctx d callback st
      = Inr (acceptDeps (ownerPath ctx) [ownerPath ctx] (SelfAcceptFn d) st)"
    using True by (simp add: hot_accept_def)
  moreover have "callbacks_of (acceptDeps (ownerPath ctx) [ownerPath ctx] (SelfAcceptFn d) st) (ownerPath ctx)
      = callbacks_of st (ownerPath ctx) @ [\<lparr> deps = [ownerPath ctx], fn = SelfAcceptFn d \<rparr>]"
    by (simp add: acceptDeps_def callbacks_of_def Let_def split: option.split)
  ultimately show ?thesis by simp
next
  case False
  then show ?thesis
    by (cases d)
      (simp_all add: hot_accept_def invalid_accept_usage_def acceptDeps_def callbacks_of_def Let_def
        split: option.split)
qed

theorem hot_accept_throws_iff_witness:
  "hot_accept \<lparr> ownerPath = demo_path, newListeners = 1 \<rparr> (JObj 0) JUndefined initial_client
     = Inl (Error ''invalid hot.accept() usage.'')
   \<and> \<not> isl (hot_accept \<lparr> ownerPath = demo_path, newListeners = 1 \<rparr> (JStr ''./dep.js'') (JFun 4) initial_client)"
proof -
  have a: "invalid_accept_usage (JObj 0)" and b: "\<not> invalid_accept_usage (JStr ''./dep.js'')"
    by (simp_all add: invalid_accept_usage_def)
  show ?thesis
    using hot_accept_throws_iff[of "\<lparr> ownerPath = demo_path, newListeners = 1 \<rparr>" "JObj 0" JUndefined initial_client]
      hot_accept_throws_iff[of "\<lparr> ownerPath = demo_path, newListeners = 1 \<rparr>" "JStr ''./dep.js''" "JFun 4" initial_client]
      a b
    by auto
qed

section \<open>Properties of applying a js-update\<close>








section \<open>Properties of injectQuery\<close>

lemma strip_from_takeWhile:
  assumes "\<not> has_line_terminator xs"
  shows "strip_from c xs = takeWhile (\<lambda>x. x \<noteq> c) xs"
  using assms by (induction xs) auto

lemma takeWhile_twice:
  "takeWhile P (takeWhile Q xs) = takeWhile (\<lambda>x. P x \<and> Q x) xs"
  by (induction xs) auto

lemma take_takeWhile_full:
  assumes "length (take n (takeWhile P xs)) = n"
  shows "take n (takeWhile P xs) = take n xs"
  using assms
proof (induction xs arbitrary: n)
  case Nil
  then show ?case by simp
next
  case (Cons x xs)
  then show ?case by (cases n) (auto split: if_splits)
qed

lemma no_terminator_takeWhile:
  assumes "\<not> has_line_terminator xs"
  shows "\<not> has_line_terminator (takeWhile P xs)"
  using assms
proof (induction xs)
  case Nil
  then show ?case by simp
next
  case (Cons x xs)
  have two: "\<And>a b. take 2 (takeWhile P xs) = [a, b] \<Longrightarrow> take 2 xs = [a, b]"
  proof -
    fix a b assume t: "take 2 (takeWhile P xs) = [a, b]"
    then have "length (take 2 (takeWhile P xs)) = 2" by simp
    from take_takeWhile_full[OF this] t show "take 2 xs = [a, b]" by simp
  qed
  from Cons show ?case
    by (auto dest: two)
qed

lemma pathname_is_url_path:
  assumes "\<not> has_line_terminator url"
  shows "strip_from (CHR ''?'') (strip_from (CHR ''#'') url) = url_path url"
proof -
  have "strip_from (CHR ''#'') url = takeWhile (\<lambda>x. x \<noteq> CHR ''#'') url"
    using assms by (rule strip_from_takeWhile)
  moreover have "\<not> has_line_terminator (takeWhile (\<lambda>x. x \<noteq> CHR ''#'') url)"
    using assms by (rule no_terminator_takeWhile)
  ultimately show ?thesis
    by (simp add: strip_from_takeWhile takeWhile_twice url_path_def)
qed

lemmas url_eval =
  injectQuery_def new_URL_def URL_rejects_def url_query_def url_fragment_def startsWith_def
  clean_def tab_or_newline_def c0_control_or_space_def code_def has_authority_def
  authority_of_def slash_def authority_rejected_def after_last_at_def any_host_def port_ok_def
  ascii_digit_def decimal_value_def raw_query_def raw_fragment_def percent_encode_def
  percent_byte_def hex_digit_def special_query_set_def fragment_set_def c0_control_set_def
  url_path_def Let_def

text \<open>
  C7, as the code has it.  A url that starts with neither \<open>.\<close> nor \<open>/\<close> is
  returned unchanged.  For a url that starts with \<open>.\<close> or \<open>/\<close>: if the URL parser
  rejects it, \<open>injectQuery\<close> throws; if the parser accepts it and it has no line
  break, the result is the part of the url before its first \<open>?\<close> or \<open>#\<close>, then
  \<open>?\<close> and the injected query, then \<open>&\<close> and the old query as the parser
  writes it (if it is not empty), then \<open>#\<close> and the fragment as the parser writes it
  (if it is not empty).
\<close>

theorem injectQuery_inserts_for_served_urls:
  "(\<not> startsWith url ''.'' \<and> \<not> startsWith url ''/'' \<longrightarrow> injectQuery valid_host url q = Inr url)
   \<and> ((startsWith url ''.'' \<or> startsWith url ''/'') \<and> URL_rejects valid_host url
       \<longrightarrow> injectQuery valid_host url q = Inl TypeError)
   \<and> ((startsWith url ''.'' \<or> startsWith url ''/'') \<and> \<not> URL_rejects valid_host url
        \<and> \<not> has_line_terminator url
       \<longrightarrow> injectQuery valid_host url q =
             Inr (url_path url @ ''?'' @ q
                  @ (if url_query url = [] then [] else ''&'' @ url_query url)
                  @ (if url_fragment url = [] then [] else ''#'' @ url_fragment url)))"
  by (auto simp add: injectQuery_def new_URL_def pathname_is_url_path)

theorem injectQuery_inserts_for_served_urls_witness:
  "injectQuery any_host ''/src/a.js?x=1#top'' ''t=123'' = Inr ''/src/a.js?t=123&x=1#top''
   \<and> injectQuery any_host ''//host:80x/a'' ''direct'' = Inl TypeError
   \<and> injectQuery any_host ''http://usr.vite/a'' ''direct'' = Inr ''http://usr.vite/a''"
proof -
  have a: "startsWith ''/src/a.js?x=1#top'' ''.'' \<or> startsWith ''/src/a.js?x=1#top'' ''/''"
    by (simp add: startsWith_def)
  have b: "\<not> has_line_terminator ''/src/a.js?x=1#top''"
    by simp
  have c: "\<not> URL_rejects any_host ''/src/a.js?x=1#top''"
    by (simp add: url_eval)
  have d: "\<not> startsWith ''http://usr.vite/a'' ''.'' \<and> \<not> startsWith ''http://usr.vite/a'' ''/''"
    by (simp add: startsWith_def)
  have e: "startsWith ''//host:80x/a'' ''.'' \<or> startsWith ''//host:80x/a'' ''/''"
    by (simp add: startsWith_def)
  have f: "URL_rejects any_host ''//host:80x/a''"
    by (simp add: url_eval)
  have g: "url_path ''/src/a.js?x=1#top'' = ''/src/a.js''"
    "url_query ''/src/a.js?x=1#top'' = ''x=1''"
    "url_fragment ''/src/a.js?x=1#top'' = ''top''"
    by (simp_all add: url_eval)
  show ?thesis
    using injectQuery_inserts_for_served_urls[of "''/src/a.js?x=1#top''" any_host "''t=123''"]
      injectQuery_inserts_for_served_urls[of "''//host:80x/a''" any_host "''direct''"]
      injectQuery_inserts_for_served_urls[of "''http://usr.vite/a''" any_host "''direct''"]
      a b c d e f
    by (simp add: g)
qed

text \<open>
  Four urls on which the query is not inserted between an unchanged path, search and
  hash: a relative url that starts with neither \<open>.\<close> nor \<open>/\<close> comes back as it
  is; \<open>//\<close> has an empty host and makes the constructor throw; a space in the old
  search comes back percent-encoded; and with a line break after the \<open>#\<close> the whole
  url is taken for the path.
\<close>

theorem injectQuery_counterexample:
  "injectQuery any_host ''usr/vite/a?x=1'' ''direct'' = Inr ''usr/vite/a?x=1''
   \<and> injectQuery any_host ''//'' ''direct'' = Inl TypeError
   \<and> injectQuery any_host ''/a?x=1 2'' ''direct'' = Inr ''/a?direct&x=1%202''
   \<and> injectQuery any_host (''/a#x'' @ [CHR 0x0A] @ ''y'') ''direct''
       = Inr (''/a#x'' @ [CHR 0x0A] @ ''y?direct#xy'')"
  by (simp add: url_eval)

section \<open>Properties of the websocket server\<close>

lemma received_append:
  "received s (st\<lparr> outbox := outbox st @ xs \<rparr>) = received s st @ map snd (filter (\<lambda>m. fst m = s) xs)"
  by (simp add: received_def)

lemma accept_connection_outbox:
  "outbox (snd (accept_connection st)) =
     outbox st @ (socketCount st, PConnected) #
       (case bufferedError st of None \<Rightarrow> [] | Some e \<Rightarrow> [(socketCount st, e)])"
  by (simp add: accept_connection_def on_connection_def socket_send_def Let_def split: option.split)

lemma accept_connection_fields:
  "fst (accept_connection st) = socketCount st"
  "socketCount (snd (accept_connection st)) = Suc (socketCount st)"
  "clients (snd (accept_connection st)) = clients st @ [socketCount st]"
  "bufferedError (snd (accept_connection st)) = None"
  by (simp_all add: accept_connection_def on_connection_def socket_send_def Let_def split: option.split)

lemma received_accept:
  "received s (snd (accept_connection st)) =
     received s st @ (if s = socketCount st
                      then PConnected # (case bufferedError st of None \<Rightarrow> [] | Some e \<Rightarrow> [e])
                      else [])"
  by (simp add: received_def accept_connection_outbox split: option.split)

lemma server_ok_accept:
  assumes "server_ok st"
  shows "server_ok (snd (accept_connection st))"
  unfolding server_ok_def
proof (intro conjI ballI allI)
  fix c assume "c \<in> set (clients (snd (accept_connection st)))"
  then show "c < socketCount (snd (accept_connection st))"
    using assms by (auto simp add: accept_connection_fields server_ok_def)
next
  fix s
  have old: "if s < socketCount st then (\<exists>rest. received s st = PConnected # rest)
             else received s st = []"
    using assms by (simp add: server_ok_def)
  show "if s < socketCount (snd (accept_connection st))
        then \<exists>rest. received s (snd (accept_connection st)) = PConnected # rest
        else received s (snd (accept_connection st)) = []"
  proof (cases "s < socketCount st")
    case True
    with old show ?thesis
      by (auto simp add: accept_connection_fields received_accept)
  next
    case False
    with old show ?thesis
      by (auto simp add: accept_connection_fields received_accept)
  qed
qed

lemma server_ok_append:
  assumes "server_ok st"
    and "\<forall>m \<in> set xs. fst m < socketCount st"
  shows "server_ok (st\<lparr> outbox := outbox st @ xs \<rparr>)"
  unfolding server_ok_def
proof (intro conjI ballI allI)
  fix c assume "c \<in> set (clients (st\<lparr> outbox := outbox st @ xs \<rparr>))"
  then show "c < socketCount (st\<lparr> outbox := outbox st @ xs \<rparr>)"
    using assms(1) by (simp add: server_ok_def)
next
  fix s
  have old: "if s < socketCount st then (\<exists>rest. received s st = PConnected # rest)
             else received s st = []"
    using assms(1) by (simp add: server_ok_def)
  show "if s < socketCount (st\<lparr> outbox := outbox st @ xs \<rparr>)
        then \<exists>rest. received s (st\<lparr> outbox := outbox st @ xs \<rparr>) = PConnected # rest
        else received s (st\<lparr> outbox := outbox st @ xs \<rparr>) = []"
  proof (cases "s < socketCount st")
    case True
    with old show ?thesis by (auto simp add: received_append)
  next
    case False
    then have "filter (\<lambda>m. fst m = s) xs = []"
      using assms(2) by (auto simp add: filter_empty_conv)
    with False old show ?thesis by (simp add: received_append)
  qed
qed

lemma server_ok_cong:
  assumes "server_ok st"
    and "set (clients st') \<subseteq> set (clients st)"
    and "socketCount st' = socketCount st"
    and "outbox st' = outbox st"
  shows "server_ok st'"
proof -
  have r: "\<And>s. received s st' = received s st"
    using assms(4) by (simp add: received_def)
  show ?thesis
    using assms(1,2,3) unfolding server_ok_def r by auto
qed

lemma server_ok_step:
  assumes "server_ok st"
  shows "server_ok (server_step ev st)"
proof (cases ev)
  case EvConnection
  then show ?thesis using server_ok_accept[OF assms] by simp
next
  case (EvSend args)
  have "\<forall>m \<in> set (map (\<lambda>client. (client, payload_of args))
                  (filter (\<lambda>client. readyState st client = 1) (clients st))). fst m < socketCount st"
    using assms by (auto simp add: server_ok_def)
  from server_ok_append[OF assms this] have 1:
    "server_ok (st\<lparr> outbox := outbox st @ map (\<lambda>client. (client, payload_of args))
                  (filter (\<lambda>client. readyState st client = 1) (clients st)) \<rparr>)" .
  have 2: "server_ok (st\<lparr> bufferedError := Some (payload_of args) \<rparr>)"
    using server_ok_cong[OF assms] by simp
  show ?thesis using EvSend 1 2 by (simp add: ws_send_def Let_def)
next
  case (EvClientSend s args)
  show ?thesis
  proof (cases "s < socketCount st")
    case True
    then have "\<forall>m \<in> set [(s, payload_of args)]. fst m < socketCount st" by simp
    from server_ok_append[OF assms this] show ?thesis
      using EvClientSend True by (simp add: client_send_def socket_send_def)
  next
    case False
    then show ?thesis using EvClientSend assms by simp
  qed
next
  case (EvClosing s)
  then show ?thesis using server_ok_cong[OF assms] by (simp add: socket_closing_def)
next
  case (EvClosed s)
  then show ?thesis using server_ok_cong[OF assms] by (simp add: socket_closed_def)
qed

lemma server_ok_run:
  assumes "server_ok st"
  shows "server_ok (server_run evs st)"
  using assms by (induction evs arbitrary: st) (simp_all add: server_ok_step)

lemma server_ok_initial: "server_ok initial_server"
  by (simp add: server_ok_def initial_server_def received_def)

lemma server_ok_connected_first:
  assumes "server_ok st"
  shows "connected_first (received s st)"
proof -
  have "if s < socketCount st then (\<exists>rest. received s st = PConnected # rest)
        else received s st = []"
    using assms by (simp add: server_ok_def)
  then show ?thesis
    by (cases "s < socketCount st") (auto simp add: connected_first_def)
qed

text \<open>
  C6.  When a connection is accepted, the first thing the server does with the new socket
  is to send it \<open>{ type: 'connected' }\<close> (a buffered error, if any, follows); and after
  any sequence of connections, sends and closes, the first message any socket was ever
  sent is \<open>connected\<close>.
\<close>

theorem connected_is_first_message:
  "fst (accept_connection st) = socketCount st
   \<and> outbox (snd (accept_connection st)) =
       outbox st @ (socketCount st, PConnected) #
         (case bufferedError st of None \<Rightarrow> [] | Some e \<Rightarrow> [(socketCount st, e)])
   \<and> connected_first (received s (server_run evs initial_server))"
  using server_ok_connected_first[OF server_ok_run[OF server_ok_initial]]
  by (simp add: accept_connection_outbox accept_connection_fields)

theorem connected_is_first_message_witness:
  "received 0 (server_run [EvSend (SendPayload (PError ''boom'')), EvConnection,
                           EvSend (SendPayload (PFullReload None))] initial_server)
     = [PConnected, PError ''boom'', PFullReload None]
   \<and> connected_first (received 0 (server_run [EvSend (SendPayload (PError ''boom'')), EvConnection,
                           EvSend (SendPayload (PFullReload None))] initial_server))"
  using connected_is_first_message[of initial_server 0
      "[EvSend (SendPayload (PError ''boom'')), EvConnection, EvSend (SendPayload (PFullReload None))]"]
  by (simp add: ws_send_def payload_of_def initial_server_def accept_connection_def Let_def
      on_connection_def socket_send_def received_def)

lemma buffer_step:
  assumes "ev \<noteq> EvConnection" and "clients st = []"
  shows "clients (server_step ev st) = []
       \<and> bufferedError (server_step ev st) =
           (case error_sends [ev] of [] \<Rightarrow> bufferedError st | e # es \<Rightarrow> Some e)"
  using assms
  by (cases ev)
    (simp_all add: ws_send_def Let_def client_send_def socket_send_def socket_closing_def
      socket_closed_def)

lemma buffer_run:
  assumes "no_connection evs" and "clients st = []" and "bufferedError st = Some p"
  shows "clients (server_run evs st) = []
       \<and> bufferedError (server_run evs st) = Some (last (p # error_sends evs))"
  using assms
proof (induction evs arbitrary: st p)
  case Nil
  then show ?case by simp
next
  case (Cons ev evs)
  from Cons.prems(1) have nc: "ev \<noteq> EvConnection" and rest: "no_connection evs"
    by (simp_all add: no_connection_def)
  from buffer_step[OF nc Cons.prems(2)] have
    c: "clients (server_step ev st) = []"
    and b: "bufferedError (server_step ev st) =
              (case error_sends [ev] of [] \<Rightarrow> bufferedError st | e # es \<Rightarrow> Some e)"
    by simp_all
  show ?case
  proof (cases "error_sends [ev]")
    case Nil
    then have same: "error_sends (ev # evs) = error_sends evs"
      by (cases ev) (simp_all split: if_splits)
    from b Nil Cons.prems(3) have "bufferedError (server_step ev st) = Some p" by simp
    from Cons.IH[OF rest c this] same show ?thesis by simp
  next
    case (Cons e es)
    then have more: "error_sends (ev # evs) = e # error_sends evs"
      by (cases ev) (simp_all split: if_splits)
    from b Cons have "bufferedError (server_step ev st) = Some e" by simp
    from Cons.IH[OF rest c this] more show ?thesis by simp
  qed
qed

text \<open>
  C5, as the code has it.  When \<open>send\<close> is called with an error payload while the
  server has no client, the payload is stored in the buffer (which holds one payload) and
  nothing is sent.  The first socket accepted after that is sent \<open>connected\<close> and then
  the error payload that was sent last before it connected, that is the payload itself
  unless another error payload was sent in between; the buffer is empty afterwards.
\<close>

theorem error_buffered_until_first_connection:
  assumes err: "is_error_payload payload"
    and none: "clients st = []"
    and first: "no_connection evs"
  shows "bufferedError (ws_send (SendPayload payload) st) = Some payload
       \<and> outbox (ws_send (SendPayload payload) st) = outbox st
       \<and> outbox (snd (accept_connection (server_run evs (ws_send (SendPayload payload) st)))) =
           outbox (server_run evs (ws_send (SendPayload payload) st))
           @ [(fst (accept_connection (server_run evs (ws_send (SendPayload payload) st))), PConnected),
              (fst (accept_connection (server_run evs (ws_send (SendPayload payload) st))),
               last (payload # error_sends evs))]
       \<and> bufferedError (snd (accept_connection (server_run evs (ws_send (SendPayload payload) st)))) = None"
proof -
  let ?st1 = "ws_send (SendPayload payload) st"
  have s1: "?st1 = st\<lparr> bufferedError := Some payload \<rparr>"
    using err none by (simp add: ws_send_def payload_of_def)
  then have b1: "bufferedError ?st1 = Some payload" and o1: "outbox ?st1 = outbox st"
    and c1: "clients ?st1 = []"
    using none by simp_all
  from buffer_run[OF first c1 b1] have
    b2: "bufferedError (server_run evs ?st1) = Some (last (payload # error_sends evs))"
    by simp
  show ?thesis
    using b1 o1 b2 by (simp add: accept_connection_outbox accept_connection_fields)
qed

theorem error_buffered_until_first_connection_witness:
  "bufferedError (ws_send (SendPayload (PError ''boom'')) initial_server) = Some (PError ''boom'')
   \<and> outbox (snd (accept_connection
        (server_run [EvSend (SendPayload (PFullReload None))]
           (ws_send (SendPayload (PError ''boom'')) initial_server)))) =
       [(0, PConnected), (0, PError ''boom'')]
   \<and> bufferedError (snd (accept_connection
        (server_run [EvSend (SendPayload (PFullReload None))]
           (ws_send (SendPayload (PError ''boom'')) initial_server)))) = None"
proof -
  have e: "is_error_payload (PError ''boom'')" by simp
  have n: "clients initial_server = []" by (simp add: initial_server_def)
  have q: "no_connection [EvSend (SendPayload (PFullReload None))]"
    by (simp add: no_connection_def)
  show ?thesis
    using error_buffered_until_first_connection[OF e n q]
    by (simp add: ws_send_def payload_of_def initial_server_def accept_connection_def Let_def)
qed

text \<open>
  Two error payloads are sent while the server has no client, then a client connects: the
  first payload was buffered, but the client is sent \<open>connected\<close> and the second
  payload only.
\<close>

theorem error_buffer_counterexample:
  "clients initial_server = []
   \<and> bufferedError (ws_send (SendPayload (PError ''first'')) initial_server)
       = Some (PError ''first'')
   \<and> outbox (snd (accept_connection
        (ws_send (SendPayload (PError ''second''))
           (ws_send (SendPayload (PError ''first'')) initial_server)))) =
       [(0, PConnected), (0, PError ''second'')]"
  by (simp add: ws_send_def payload_of_def initial_server_def accept_connection_def Let_def
      on_connection_def socket_send_def)

end
